theory Spec2Isabelle
  imports Complex_Main
begin

section \<open>Data model\<close>

text \<open>
  The tables behind \<^verbatim>\<open>prisma.user\<close>, \<^verbatim>\<open>prisma.product\<close>, \<^verbatim>\<open>prisma.order\<close> and
  \<^verbatim>\<open>prisma.orderItem\<close>. Identifiers are TEXT columns (see the migration that adds
  \<^verbatim>\<open>orderId\<close> and \<^verbatim>\<open>productId\<close> to \<^verbatim>\<open>OrderItem\<close>), so they are strings. Stock and
  quantity are integers. Prices and totals are JavaScript numbers: their type is the
  parameter \<open>'n\<close>, and the arithmetic on them is the parameter \<open>number_ops\<close> below, so
  nothing is assumed of how a sum or a product is rounded. A table is the list of its rows,
  in the order of their insertion.
\<close>

record user =
  user_id :: string
  email :: string
  password :: string

record 'n product =
  product_id :: string
  stock :: int
  price :: 'n

text \<open>One element of \<^verbatim>\<open>req.body.orderItems\<close>; an \<^verbatim>\<open>OrderItem\<close> row adds the order it
  belongs to.\<close>

record 'n orderItemInput =
  productId :: string
  quantity :: int
  unitPrice :: 'n

record 'n orderItem = "'n orderItemInput" +
  orderId :: string

record order =
  order_id :: string
  order_userId :: string

text \<open>An order as a handler sends it: the row, the included \<^verbatim>\<open>orderItems\<close>, and the
  \<^verbatim>\<open>total\<close> property when the handler has set it.\<close>

record 'n order_body = order +
  included_orderItems :: "'n orderItem list"
  total :: "'n option"

record 'n createOrderBody =
  userId :: string
  orderItems :: "'n orderItemInput list"

record 'n db =
  user_tbl :: "user list"
  product_tbl :: "'n product list"
  order_tbl :: "order list"
  orderItem_tbl :: "'n orderItem list"

section \<open>Errors and \<^verbatim>\<open>asyncHandler\<close>\<close>

datatype error =
    StructError
  | PrismaClientValidationError
  | PrismaClientKnownRequestError string
  | AuthError string
  | Error string
  | TypeError

text \<open>What \<^verbatim>\<open>asyncHandler\<close> does with a thrown error: answer with a status, or hand the
  error to \<^verbatim>\<open>next\<close>.\<close>

datatype outcome = Status nat | Next error

fun asyncHandler :: "error \<Rightarrow> outcome" where
  "asyncHandler StructError = Status 400"
| "asyncHandler PrismaClientValidationError = Status 400"
| "asyncHandler (PrismaClientKnownRequestError code) =
     (if code = ''P2025'' then Status 404 else Next (PrismaClientKnownRequestError code))"
| "asyncHandler (AuthError m) = Status 401"
| "asyncHandler e = Next e"

section \<open>The datastore operations the order handlers use\<close>

text \<open>\<^verbatim>\<open>prisma.product.findMany({ where: { id: { in: productIds } } })\<close>\<close>

definition findMany_products :: "string list \<Rightarrow> 'n db \<Rightarrow> 'n product list" where
  "findMany_products productIds d =
     filter (\<lambda>p. product_id p \<in> set productIds) (product_tbl d)"

datatype 'n db_op =
    OrderCreate string string "'n orderItemInput list"
  | ProductDecrement string int

datatype 'n op_result = OrderResult "'n order_body" | ProductResult "'n product list"

definition orderItem_row :: "string \<Rightarrow> 'n orderItemInput \<Rightarrow> 'n orderItem" where
  "orderItem_row oid i =
     \<lparr>productId = productId i, quantity = quantity i, unitPrice = unitPrice i,
      orderId = oid\<rparr>"

text \<open>
  \<^verbatim>\<open>prisma.order.create\<close> with nested \<^verbatim>\<open>orderItems: { create: orderItems }\<close> and
  \<^verbatim>\<open>include: { orderItems: true }\<close>. The first argument is the primary key the datastore
  generates for the new row. The constraint \<^verbatim>\<open>OrderItem_productId_fkey\<close> of the migration
  rejects an item whose product does not exist (Prisma reports a violated foreign key as
  P2003).

  Modelled from the spec: the schema that declares the \<^verbatim>\<open>Order.userId\<close> relation is not
  among the sources; the spec gives an Order an owning user reference and lists an unknown
  userId as an error, so the insert is rejected in the same way when the user does not
  exist.
\<close>

definition order_create ::
  "string \<Rightarrow> string \<Rightarrow> 'n orderItemInput list \<Rightarrow> 'n db \<Rightarrow>
     error + ('n op_result \<times> 'n db)" where
  "order_create oid uid items d =
     (if uid \<notin> set (map user_id (user_tbl d))
      then Inl (PrismaClientKnownRequestError ''P2003'')
      else if \<not> list_all (\<lambda>i. productId i \<in> set (map product_id (product_tbl d))) items
      then Inl (PrismaClientKnownRequestError ''P2003'')
      else
        Inr (OrderResult
               \<lparr>order_id = oid, order_userId = uid,
                included_orderItems = map (orderItem_row oid) items, total = None\<rparr>,
             d\<lparr>order_tbl := order_tbl d @ [\<lparr>order_id = oid, order_userId = uid\<rparr>],
               orderItem_tbl := orderItem_tbl d @ map (orderItem_row oid) items\<rparr>))"

text \<open>\<^verbatim>\<open>prisma.product.update({ where: { id }, data: { stock: { decrement: n } } })\<close>:
  P2025 when no row has the id.\<close>

definition decrement_stock :: "string \<Rightarrow> int \<Rightarrow> 'n product \<Rightarrow> 'n product" where
  "decrement_stock pid n p = (if product_id p = pid then p\<lparr>stock := stock p - n\<rparr> else p)"

definition product_update_decrement ::
  "string \<Rightarrow> int \<Rightarrow> 'n db \<Rightarrow> error + ('n op_result \<times> 'n db)" where
  "product_update_decrement pid n d =
     (if pid \<notin> set (map product_id (product_tbl d))
      then Inl (PrismaClientKnownRequestError ''P2025'')
      else
        Inr (ProductResult (filter (\<lambda>p. product_id p = pid)
                              (map (decrement_stock pid n) (product_tbl d))),
             d\<lparr>product_tbl := map (decrement_stock pid n) (product_tbl d)\<rparr>))"

fun exec_op :: "'n db_op \<Rightarrow> 'n db \<Rightarrow> error + ('n op_result \<times> 'n db)" where
  "exec_op (OrderCreate oid uid items) d = order_create oid uid items d"
| "exec_op (ProductDecrement pid n) d = product_update_decrement pid n d"

text \<open>The statements of a transaction run in order on the working state; the first
  failure stops the run.\<close>

fun run_ops :: "'n db_op list \<Rightarrow> 'n db \<Rightarrow> error + ('n op_result list \<times> 'n db)" where
  "run_ops [] d = Inr ([], d)"
| "run_ops (q # qs) d =
     (case exec_op q d of
        Inl e \<Rightarrow> Inl e
      | Inr (r, d') \<Rightarrow>
          (case run_ops qs d' of
             Inl e \<Rightarrow> Inl e
           | Inr (rs, d'') \<Rightarrow> Inr (r # rs, d'')))"

text \<open>\<^verbatim>\<open>prisma.$transaction([...])\<close>: the working state is committed when every statement
  succeeded and dropped otherwise.\<close>

definition transaction ::
  "'n db_op list \<Rightarrow> 'n db \<Rightarrow> (error + 'n op_result list) \<times> 'n db" where
  "transaction qs d =
     (case run_ops qs d of
        Inl e \<Rightarrow> (Inl e, d)
      | Inr (rs, d') \<Rightarrow> (Inr rs, d'))"

section \<open>POST /orders\<close>

text \<open>
  Modelled from the spec: \<^verbatim>\<open>structs.js\<close>, which declares the \<^verbatim>\<open>CreateOrder\<close> struct that
  \<^verbatim>\<open>assert(req.body, CreateOrder)\<close> checks, is not among the sources. The spec's input
  constraints are a non-empty item list and a positive integer quantity in each item.
\<close>

definition CreateOrder :: "'n createOrderBody \<Rightarrow> bool" where
  "CreateOrder body =
     (orderItems body \<noteq> [] \<and> list_all (\<lambda>i. 0 < quantity i) (orderItems body))"

text \<open>\<^verbatim>\<open>getQuantity\<close>: the quantity of the first item with the product id;
  \<^verbatim>\<open>orderItem.quantity\<close> throws a TypeError when \<^verbatim>\<open>find\<close> returned undefined.\<close>

definition getQuantity :: "'n orderItemInput list \<Rightarrow> string \<Rightarrow> error + int" where
  "getQuantity items pid =
     (case find (\<lambda>orderItem. productId orderItem = pid) items of
        None \<Rightarrow> Inl TypeError
      | Some orderItem \<Rightarrow> Inr (quantity orderItem))"

text \<open>\<^verbatim>\<open>products.every(...)\<close>, which stops at the first product that fails the test.\<close>

fun isSufficientStock ::
  "'n orderItemInput list \<Rightarrow> 'n product list \<Rightarrow> error + bool" where
  "isSufficientStock items [] = Inr True"
| "isSufficientStock items (p # ps) =
     (case getQuantity items (product_id p) of
        Inl e \<Rightarrow> Inl e
      | Inr n \<Rightarrow> if n \<le> stock p then isSufficientStock items ps else Inr False)"

text \<open>\<^verbatim>\<open>productIds.map(...)\<close>: one update per element of \<^verbatim>\<open>productIds\<close>, each with the
  decrement that \<^verbatim>\<open>getQuantity\<close> returns for its id.\<close>

fun queries :: "'n orderItemInput list \<Rightarrow> string list \<Rightarrow> error + 'n db_op list" where
  "queries items [] = Inr []"
| "queries items (pid # pids) =
     (case getQuantity items pid of
        Inl e \<Rightarrow> Inl e
      | Inr n \<Rightarrow>
          (case queries items pids of
             Inl e \<Rightarrow> Inl e
           | Inr qs \<Rightarrow> Inr (ProductDecrement pid n # qs)))"

text \<open>The handler after \<^verbatim>\<open>await prisma.product.findMany\<close> has returned \<open>products\<close>: the
  stock check on the loaded rows, then the transaction on the datastore as it is now.
  \<^verbatim>\<open>const [order] = ...\<close> takes the first result, that of the insert.\<close>

definition placeOrder_commit ::
  "string \<Rightarrow> 'n createOrderBody \<Rightarrow> 'n product list \<Rightarrow> 'n db \<Rightarrow>
     (error + 'n order_body) \<times> 'n db" where
  "placeOrder_commit oid body products d =
     (case isSufficientStock (orderItems body) products of
        Inl e \<Rightarrow> (Inl e, d)
      | Inr False \<Rightarrow> (Inl (Error ''Insufficient Stock''), d)
      | Inr True \<Rightarrow>
          (case queries (orderItems body) (map productId (orderItems body)) of
             Inl e \<Rightarrow> (Inl e, d)
           | Inr qs \<Rightarrow>
               (case transaction (OrderCreate oid (userId body) (orderItems body) # qs) d of
                  (Inl e, d') \<Rightarrow> (Inl e, d')
                | (Inr [], d') \<Rightarrow> (Inl TypeError, d')
                | (Inr (OrderResult ob # rs), d') \<Rightarrow> (Inr ob, d')
                | (Inr (ProductResult ps # rs), d') \<Rightarrow> (Inl TypeError, d'))))"

definition placeOrder ::
  "string \<Rightarrow> 'n createOrderBody \<Rightarrow> 'n db \<Rightarrow> (error + 'n order_body) \<times> 'n db" where
  "placeOrder oid body d =
     (if \<not> CreateOrder body then (Inl StructError, d)
      else placeOrder_commit oid body
             (findMany_products (map productId (orderItems body)) d) d)"

section \<open>GET /orders/:id\<close>

text \<open>
  The arithmetic of JavaScript numbers that the handler uses: \<^verbatim>\<open>+\<close>, \<^verbatim>\<open>*\<close>, and the number
  that an integer of the datastore becomes. They are parameters, so that what is proved
  holds of IEEE doubles with their rounding as of any other arithmetic.
\<close>

record 'n number_ops =
  js_add :: "'n \<Rightarrow> 'n \<Rightarrow> 'n"
  js_mul :: "'n \<Rightarrow> 'n \<Rightarrow> 'n"
  js_num :: "int \<Rightarrow> 'n"

text \<open>The \<^verbatim>\<open>forEach\<close> loop: \<^verbatim>\<open>total += orderItem.unitPrice * orderItem.quantity\<close> for
  each item in turn, starting from 0. It reads only the unit price and the quantity of an
  item.\<close>

definition order_total :: "'n number_ops \<Rightarrow> ('n, 'a) orderItemInput_scheme list \<Rightarrow> 'n" where
  "order_total ops items =
     foldl (\<lambda>total orderItem.
              js_add ops total (js_mul ops (unitPrice orderItem) (js_num ops (quantity orderItem))))
       (js_num ops 0) items"

text \<open>\<^verbatim>\<open>findUniqueOrThrow\<close> with \<^verbatim>\<open>include: { orderItems: true }\<close>, then
  \<^verbatim>\<open>order.total = total\<close> on the object that is sent. The datastore is only read.\<close>

definition getOrder :: "'n number_ops \<Rightarrow> string \<Rightarrow> 'n db \<Rightarrow> error + 'n order_body" where
  "getOrder ops oid d =
     (case find (\<lambda>ord. order_id ord = oid) (order_tbl d) of
        None \<Rightarrow> Inl (PrismaClientKnownRequestError ''P2025'')
      | Some ord \<Rightarrow>
          Inr \<lparr>order_id = order_id ord, order_userId = order_userId ord,
               included_orderItems = filter (\<lambda>orderItem. orderId orderItem = oid) (orderItem_tbl d),
               total = Some (order_total ops
                        (filter (\<lambda>orderItem. orderId orderItem = oid) (orderItem_tbl d)))\<rparr>)"

section \<open>What a placement that succeeds has written\<close>

text \<open>The quantity \<^verbatim>\<open>getQuantity\<close> finds for a product id, the order that
  \<^verbatim>\<open>prisma.order.create\<close> returns, and the datastore after the transaction: one update
  per element of \<^verbatim>\<open>productIds\<close>.\<close>

definition qty :: "'n orderItemInput list \<Rightarrow> string \<Rightarrow> int" where
  "qty items pid =
     (case find (\<lambda>orderItem. productId orderItem = pid) items of
        None \<Rightarrow> 0
      | Some orderItem \<Rightarrow> quantity orderItem)"

definition decrement_all ::
  "'n orderItemInput list \<Rightarrow> string list \<Rightarrow> 'n product list \<Rightarrow> 'n product list" where
  "decrement_all items pids tbl =
     fold (\<lambda>pid. map (decrement_stock pid (qty items pid))) pids tbl"

definition created_order :: "string \<Rightarrow> 'n createOrderBody \<Rightarrow> 'n order_body" where
  "created_order oid body =
     \<lparr>order_id = oid, order_userId = userId body,
      included_orderItems = map (orderItem_row oid) (orderItems body), total = None\<rparr>"

definition committed :: "string \<Rightarrow> 'n createOrderBody \<Rightarrow> 'n db \<Rightarrow> 'n db" where
  "committed oid body d =
     d\<lparr>order_tbl := order_tbl d @ [\<lparr>order_id = oid, order_userId = userId body\<rparr>],
       orderItem_tbl := orderItem_tbl d @ map (orderItem_row oid) (orderItems body),
       product_tbl :=
         decrement_all (orderItems body) (map productId (orderItems body)) (product_tbl d)\<rparr>"

definition references_ok :: "'n createOrderBody \<Rightarrow> 'n db \<Rightarrow> bool" where
  "references_ok body d =
     (userId body \<in> set (map user_id (user_tbl d)) \<and>
      list_all (\<lambda>i. productId i \<in> set (map product_id (product_tbl d))) (orderItems body))"


section \<open>DELETE /products/:id\<close>

text \<open>
  \<^verbatim>\<open>prisma.product.delete({ where: { id } })\<close>: P2025 when no row has the id. The
  migration declares \<^verbatim>\<open>OrderItem_productId_fkey\<close> with \<^verbatim>\<open>ON DELETE RESTRICT\<close>, so the
  datastore refuses the delete while an OrderItem row references the product (P2003).
\<close>

definition deleteProduct :: "string \<Rightarrow> 'n db \<Rightarrow> (error + unit) \<times> 'n db" where
  "deleteProduct pid d =
     (if pid \<notin> set (map product_id (product_tbl d))
      then (Inl (PrismaClientKnownRequestError ''P2025''), d)
      else if pid \<in> set (map productId (orderItem_tbl d))
      then (Inl (PrismaClientKnownRequestError ''P2003''), d)
      else (Inr (), d\<lparr>product_tbl := filter (\<lambda>p. product_id p \<noteq> pid) (product_tbl d)\<rparr>))"

section \<open>Authentication: the token of \<^verbatim>\<open>POST /auth/login\<close> and the \<^verbatim>\<open>auth\<close> middleware\<close>

text \<open>
  A string is the list of its UTF-8 bytes, which is what \<^verbatim>\<open>Buffer.from(string)\<close> holds.
  \<^verbatim>\<open>toString("base64")\<close> writes three bytes as four characters of the alphabet
  A-Z, a-z, 0-9, +, / and pads the last group with \<^verbatim>\<open>=\<close>.
  \<^verbatim>\<open>Buffer.from(token, "base64")\<close> reads the characters of the alphabet, with \<^verbatim>\<open>-\<close> for
  \<^verbatim>\<open>+\<close> and \<^verbatim>\<open>_\<close> for \<^verbatim>\<open>/\<close> as well, skips every other character, and ends at the
  first \<^verbatim>\<open>=\<close>; four characters read give three bytes, and two or three that remain at
  the end give one or two.
\<close>

definition byte :: "char \<Rightarrow> nat" where
  "byte c = of_char c"

definition enc6 :: "nat \<Rightarrow> char" where
  "enc6 n =
     (if n < 26 then char_of (65 + n)
      else if n < 52 then char_of (71 + n)
      else if n < 62 then char_of (n - 4)
      else if n = 62 then CHR ''+''
      else CHR ''/'')"

definition dec6 :: "char \<Rightarrow> nat option" where
  "dec6 c =
     (let k = byte c in
      if 65 \<le> k \<and> k \<le> 90 then Some (k - 65)
      else if 97 \<le> k \<and> k \<le> 122 then Some (k - 71)
      else if 48 \<le> k \<and> k \<le> 57 then Some (k + 4)
      else if k = 43 \<or> k = 45 then Some 62
      else if k = 47 \<or> k = 95 then Some 63
      else None)"

fun base64_encode :: "char list \<Rightarrow> string" where
  "base64_encode [] = []"
| "base64_encode [a] =
     [enc6 (byte a div 4), enc6 (byte a mod 4 * 16), CHR ''='', CHR ''='']"
| "base64_encode [a, b] =
     [enc6 (byte a div 4), enc6 (byte a mod 4 * 16 + byte b div 16),
      enc6 (byte b mod 16 * 4), CHR ''='']"
| "base64_encode (a # b # c # bs) =
     enc6 (byte a div 4) # enc6 (byte a mod 4 * 16 + byte b div 16) #
     enc6 (byte b mod 16 * 4 + byte c div 64) # enc6 (byte c mod 64) # base64_encode bs"

fun sextets_of :: "string \<Rightarrow> nat list" where
  "sextets_of [] = []"
| "sextets_of (c # cs) =
     (case dec6 c of
        Some n \<Rightarrow> n # sextets_of cs
      | None \<Rightarrow> if c = CHR ''='' then [] else sextets_of cs)"

fun bytes_of :: "nat list \<Rightarrow> char list" where
  "bytes_of (n1 # n2 # n3 # n4 # ns) =
     char_of (n1 * 4 + n2 div 16) # char_of (n2 mod 16 * 16 + n3 div 4) #
     char_of (n3 mod 4 * 64 + n4) # bytes_of ns"
| "bytes_of [n1, n2, n3] = [char_of (n1 * 4 + n2 div 16), char_of (n2 mod 16 * 16 + n3 div 4)]"
| "bytes_of [n1, n2] = [char_of (n1 * 4 + n2 div 16)]"
| "bytes_of ns = []"

definition base64_decode :: "string \<Rightarrow> char list" where
  "base64_decode token = bytes_of (sextets_of token)"

text \<open>\<^verbatim>\<open>toString("ascii")\<close> clears the highest bit of every byte.\<close>

definition toString_ascii :: "char list \<Rightarrow> string" where
  "toString_ascii bs = map (\<lambda>b. char_of (byte b mod 128)) bs"

text \<open>\<^verbatim>\<open>decoded.split(":")\<close>\<close>

fun split :: "char \<Rightarrow> string \<Rightarrow> string list" where
  "split sep [] = [[]]"
| "split sep (c # cs) =
     (if c = sep then [] # split sep cs
      else (case split sep cs of
              [] \<Rightarrow> [[c]]
            | part # parts \<Rightarrow> (c # part) # parts))"

record loginBody =
  login_email :: string
  login_password :: string

text \<open>
  The handler of \<^verbatim>\<open>POST /auth/login\<close>, returning the token it puts into the cookie. The
  \<^verbatim>\<open>Login\<close> struct of \<^verbatim>\<open>structs.js\<close> and \<^verbatim>\<open>bcrypt.compare\<close> are parameters.
\<close>

definition login ::
  "(loginBody \<Rightarrow> bool) \<Rightarrow> (string \<Rightarrow> string \<Rightarrow> bool) \<Rightarrow> loginBody \<Rightarrow> 'n db \<Rightarrow>
     error + string" where
  "login Login compare body d =
     (if \<not> Login body then Inl StructError
      else
        (case find (\<lambda>u. email u = login_email body) (user_tbl d) of
           None \<Rightarrow> Inl (AuthError ''Invalid credentials'')
         | Some u \<Rightarrow>
             if \<not> compare (login_password body) (password u)
             then Inl (AuthError ''Invalid credentials'')
             else Inr (base64_encode (user_id u @ '':'' @ login_password body))))"

text \<open>The \<^verbatim>\<open>auth\<close> middleware from \<^verbatim>\<open>const [userId, password] = ...\<close> on, given the
  parts of the decoded token: the user named by the first part is looked up and the second
  part is verified against the stored hash.\<close>

definition verify_parts ::
  "(string \<Rightarrow> string \<Rightarrow> bool) \<Rightarrow> string list \<Rightarrow> 'n db \<Rightarrow> error + user" where
  "verify_parts compare parts d =
     (case parts of
        uid # pw # rest \<Rightarrow>
          if uid = [] \<or> pw = [] then Inl (AuthError ''Invalid token format'')
          else
            (case find (\<lambda>u. user_id u = uid) (user_tbl d) of
               None \<Rightarrow> Inl (PrismaClientKnownRequestError ''P2025'')
             | Some u \<Rightarrow>
                 if \<not> compare pw (password u)
                 then Inl (AuthError ''Invalid credentials in token'')
                 else Inr u)
      | _ \<Rightarrow> Inl (AuthError ''Invalid token format''))"

text \<open>The \<^verbatim>\<open>auth\<close> middleware on the cookie \<^verbatim>\<open>req.cookies.token\<close>, which may be absent;
  on success it stores the user in \<^verbatim>\<open>req.user\<close>.\<close>

definition auth ::
  "(string \<Rightarrow> string \<Rightarrow> bool) \<Rightarrow> string option \<Rightarrow> 'n db \<Rightarrow> error + user" where
  "auth compare cookie d =
     (case cookie of
        None \<Rightarrow> Inl (AuthError ''No token provided'')
      | Some token \<Rightarrow>
          if token = [] then Inl (AuthError ''No token provided'')
          else verify_parts compare
                 (split CHR '':'' (toString_ascii (base64_decode token))) d)"

section \<open>Example data\<close>

text \<open>The prices of the examples are whole numbers, written as rationals.\<close>

definition user_U :: user where
  "user_U = \<lparr>user_id = ''U'', email = ''u@example.com'', password = ''hash''\<rparr>"

definition db_P :: "int \<Rightarrow> rat db" where
  "db_P n =
     \<lparr>user_tbl = [user_U],
      product_tbl = [\<lparr>product_id = ''P'', stock = n, price = 5\<rparr>],
      order_tbl = [], orderItem_tbl = []\<rparr>"

definition item :: "string \<Rightarrow> int \<Rightarrow> rat \<Rightarrow> rat orderItemInput" where
  "item pid n u = \<lparr>productId = pid, quantity = n, unitPrice = u\<rparr>"

text \<open>Arithmetic without rounding, which is what doubles do on the whole numbers of the
  examples.\<close>

definition exact_ops :: "rat number_ops" where
  "exact_ops = \<lparr>js_add = (+), js_mul = (*), js_num = of_int\<rparr>"

definition request :: "'n orderItemInput list \<Rightarrow> 'n createOrderBody" where
  "request items = \<lparr>userId = ''U'', orderItems = items\<rparr>"

text \<open>A user whose stored hash stands for the password \<^verbatim>\<open>secret\<close>, and a comparator that
  accepts exactly the password a hash stands for.\<close>

definition user_1 :: user where
  "user_1 = \<lparr>user_id = ''u1'', email = ''a@b.c'', password = ''hash(secret)''\<rparr>"

definition db_1 :: "rat db" where
  "db_1 = \<lparr>user_tbl = [user_U, user_1], product_tbl = [], order_tbl = [], orderItem_tbl = []\<rparr>"

text \<open>The same user with a password that has a colon in it, and with one that has a
  character outside ASCII (the two bytes of e with an acute accent).\<close>

definition db_2 :: "rat db" where
  "db_2 =
     \<lparr>user_tbl = [\<lparr>user_id = ''u1'', email = ''a@b.c'', password = ''hash(p:q)''\<rparr>],
      product_tbl = [], order_tbl = [], orderItem_tbl = []\<rparr>"

definition db_3 :: "rat db" where
  "db_3 =
     \<lparr>user_tbl = [\<lparr>user_id = ''u1'', email = ''a@b.c'',
                   password = ''hash('' @ [CHR 0xC3, CHR 0xA9] @ '')''\<rparr>],
      product_tbl = [], order_tbl = [], orderItem_tbl = []\<rparr>"

definition compare_1 :: "string \<Rightarrow> string \<Rightarrow> bool" where
  "compare_1 pw h = (h = ''hash('' @ pw @ '')'')"

section \<open>Two requests in flight\<close>

text \<open>
  A handler runs until its next \<^verbatim>\<open>await\<close>. \<^verbatim>\<open>POST /orders\<close> awaits twice: the
  \<^verbatim>\<open>findMany\<close> that loads the products, and the \<^verbatim>\<open>$transaction\<close>. A request is therefore
  pending, or holds the products it has loaded, or is done; a step takes it to its next
  state on the datastore as it is at that moment, and a schedule says which of two requests
  takes the next step.
\<close>

datatype 'n request_state = Pending | Loaded "'n product list" | Done "error + 'n order_body"

record 'n task =
  task_oid :: string
  task_body :: "'n createOrderBody"
  task_state :: "'n request_state"

definition step :: "'n task \<Rightarrow> 'n db \<Rightarrow> 'n task \<times> 'n db" where
  "step t d =
     (case task_state t of
        Pending \<Rightarrow>
          (if \<not> CreateOrder (task_body t) then (t\<lparr>task_state := Done (Inl StructError)\<rparr>, d)
           else (t\<lparr>task_state :=
                    Loaded (findMany_products (map productId (orderItems (task_body t))) d)\<rparr>,
                 d))
      | Loaded products \<Rightarrow>
          (case placeOrder_commit (task_oid t) (task_body t) products d of
             (r, d') \<Rightarrow> (t\<lparr>task_state := Done r\<rparr>, d'))
      | Done r \<Rightarrow> (t, d))"

datatype turn = First | Second

fun run_schedule ::
  "turn list \<Rightarrow> 'n task \<times> 'n task \<times> 'n db \<Rightarrow> 'n task \<times> 'n task \<times> 'n db" where
  "run_schedule [] s = s"
| "run_schedule (First # ts) (a, b, d) =
     (case step a d of (a', d') \<Rightarrow> run_schedule ts (a', b, d'))"
| "run_schedule (Second # ts) (a, b, d) =
     (case step b d of (b', d') \<Rightarrow> run_schedule ts (a, b', d'))"

definition new_task :: "string \<Rightarrow> 'n createOrderBody \<Rightarrow> 'n task" where
  "new_task oid body = \<lparr>task_oid = oid, task_body = body, task_state = Pending\<rparr>"

definition succeeded :: "'n task \<Rightarrow> bool" where
  "succeeded t = (case task_state t of Done (Inr ob) \<Rightarrow> True | _ \<Rightarrow> False)"

definition insufficient :: "'n task \<Rightarrow> bool" where
  "insufficient t = (task_state t = Done (Inl (Error ''Insufficient Stock'')))"

text \<open>Two requests for 6 of the product, against a stock of 10.\<close>

definition two_sixes :: "rat task \<times> rat task \<times> rat db" where
  "two_sixes =
     (new_task ''O1'' (request [item ''P'' 6 5]),
      new_task ''O2'' (request [item ''P'' 6 5]), db_P 10)"

definition stocks :: "'n task \<times> 'n task \<times> 'n db \<Rightarrow> int list" where
  "stocks s = (case s of (a, b, d) \<Rightarrow> map stock (product_tbl d))"

section \<open>Lemmas on the handler\<close>

lemmas placeOrder_defs =
  placeOrder_def placeOrder_commit_def CreateOrder_def findMany_products_def
  getQuantity_def transaction_def order_create_def product_update_decrement_def
  decrement_stock_def orderItem_row_def

lemmas example_defs = db_P_def user_U_def item_def request_def

lemma find_productId_Some:
  "pid \<in> set (map productId items) \<Longrightarrow>
     \<exists>i. find (\<lambda>orderItem. productId orderItem = pid) items = Some i"
  by (induction items) auto

lemma getQuantity_requested:
  "pid \<in> set (map productId items) \<Longrightarrow> getQuantity items pid = Inr (qty items pid)"
  using find_productId_Some [of pid items] by (auto simp: getQuantity_def qty_def)

lemma isSufficientStock_requested:
  "set (map product_id ps) \<subseteq> set (map productId items) \<Longrightarrow>
     isSufficientStock items ps = Inr (list_all (\<lambda>p. qty items (product_id p) \<le> stock p) ps)"
  by (induction ps) (auto simp: getQuantity_requested)

lemma findMany_products_ids:
  "set (map product_id (findMany_products pids d)) \<subseteq> set pids"
  by (auto simp: findMany_products_def)

lemma queries_requested:
  "set pids \<subseteq> set (map productId items) \<Longrightarrow>
     queries items pids = Inr (map (\<lambda>pid. ProductDecrement pid (qty items pid)) pids)"
  by (induction pids) (auto simp: getQuantity_requested)

lemma product_id_decrement_stock [simp]:
  "product_id (decrement_stock pid n p) = product_id p"
  by (simp add: decrement_stock_def)

lemma product_ids_decrement_all [simp]:
  "map product_id (decrement_all items pids tbl) = map product_id tbl"
  unfolding decrement_all_def by (induction pids arbitrary: tbl) auto

lemma run_ops_decrements:
  "set pids \<subseteq> set (map product_id (product_tbl d)) \<Longrightarrow>
     \<exists>rs. run_ops (map (\<lambda>pid. ProductDecrement pid (qty items pid)) pids) d =
       Inr (rs, d\<lparr>product_tbl := decrement_all items pids (product_tbl d)\<rparr>)"
proof (induction pids arbitrary: d)
  case Nil
  then show ?case by (simp add: decrement_all_def)
next
  case (Cons pid pids)
  let ?d = "d\<lparr>product_tbl := map (decrement_stock pid (qty items pid)) (product_tbl d)\<rparr>"
  have "set pids \<subseteq> set (map product_id (product_tbl ?d))"
    using Cons.prems by simp
  from Cons.IH [OF this] obtain rs where
    "run_ops (map (\<lambda>pid. ProductDecrement pid (qty items pid)) pids) ?d =
       Inr (rs, ?d\<lparr>product_tbl := decrement_all items pids (product_tbl ?d)\<rparr>)" ..
  then show ?case using Cons.prems
    by (simp add: product_update_decrement_def decrement_all_def)
qed

text \<open>The handler after the load, case by case: the stock check on the loaded rows, the
  foreign keys of the insert, and the committed state. Neither the TypeError of
  \<^verbatim>\<open>getQuantity\<close> nor P2025 of an update can occur.\<close>

lemma placeOrder_commit_cases:
  assumes "set (map product_id products) \<subseteq> set (map productId (orderItems body))"
  shows "placeOrder_commit oid body products d =
     (if \<not> list_all (\<lambda>p. qty (orderItems body) (product_id p) \<le> stock p) products
      then (Inl (Error ''Insufficient Stock''), d)
      else if \<not> references_ok body d
      then (Inl (PrismaClientKnownRequestError ''P2003''), d)
      else (Inr (created_order oid body), committed oid body d))"
proof -
  let ?items = "orderItems body"
  let ?pids = "map productId ?items"
  let ?qs = "map (\<lambda>pid. ProductDecrement pid (qty ?items pid)) ?pids"
  have q: "queries ?items ?pids = Inr ?qs"
    by (rule queries_requested) simp
  have s: "isSufficientStock ?items products =
      Inr (list_all (\<lambda>p. qty ?items (product_id p) \<le> stock p) products)"
    by (rule isSufficientStock_requested [OF assms])
  show ?thesis
  proof (cases "references_ok body d")
    case False
    then have "order_create oid (userId body) ?items d =
        Inl (PrismaClientKnownRequestError ''P2003'')"
      by (auto simp: references_ok_def order_create_def)
    then have "transaction (OrderCreate oid (userId body) ?items # ?qs) d =
        (Inl (PrismaClientKnownRequestError ''P2003''), d)"
      by (simp add: transaction_def)
    with False q s show ?thesis
      by (simp add: placeOrder_commit_def)
  next
    case True
    let ?d = "d\<lparr>order_tbl := order_tbl d @ [\<lparr>order_id = oid, order_userId = userId body\<rparr>],
               orderItem_tbl := orderItem_tbl d @ map (orderItem_row oid) ?items\<rparr>"
    from True have c: "order_create oid (userId body) ?items d =
        Inr (OrderResult (created_order oid body), ?d)"
      by (simp add: references_ok_def order_create_def created_order_def)
    from True have "set ?pids \<subseteq> set (map product_id (product_tbl ?d))"
      by (auto simp: references_ok_def list_all_iff)
    from run_ops_decrements [OF this, of ?items] obtain rs where
      "run_ops ?qs ?d =
         Inr (rs, ?d\<lparr>product_tbl := decrement_all ?items ?pids (product_tbl ?d)\<rparr>)" ..
    with c have "transaction (OrderCreate oid (userId body) ?items # ?qs) d =
        (Inr (OrderResult (created_order oid body) # rs), committed oid body d)"
      by (simp add: transaction_def committed_def)
    with True q s show ?thesis
      by (simp add: placeOrder_commit_def)
  qed
qed

lemma placeOrder_cases:
  "placeOrder oid body d =
     (if \<not> CreateOrder body then (Inl StructError, d)
      else if \<not> list_all (\<lambda>p. qty (orderItems body) (product_id p) \<le> stock p)
                  (findMany_products (map productId (orderItems body)) d)
      then (Inl (Error ''Insufficient Stock''), d)
      else if \<not> references_ok body d
      then (Inl (PrismaClientKnownRequestError ''P2003''), d)
      else (Inr (created_order oid body), committed oid body d))"
  by (simp add: placeOrder_def placeOrder_commit_cases [OF findMany_products_ids])

lemma decrement_all_eq:
  "decrement_all items pids tbl =
     map (\<lambda>p. p\<lparr>stock := stock p -
                  int (count_list pids (product_id p)) * qty items (product_id p)\<rparr>) tbl"
proof (induction pids arbitrary: tbl)
  case Nil
  then show ?case by (simp add: decrement_all_def)
next
  case (Cons pid pids)
  have "decrement_all items (pid # pids) tbl =
      decrement_all items pids (map (decrement_stock pid (qty items pid)) tbl)"
    by (simp add: decrement_all_def)
  also have "\<dots> =
      map (\<lambda>p. p\<lparr>stock := stock p -
                  int (count_list (pid # pids) (product_id p)) * qty items (product_id p)\<rparr>) tbl"
    by (simp add: Cons.IH decrement_stock_def algebra_simps)
  finally show ?case .
qed



lemma order_total_rows:
  "order_total ops (map (orderItem_row oid) items) = order_total ops items"
proof -
  have "foldl (\<lambda>total orderItem.
            js_add ops total (js_mul ops (unitPrice orderItem) (js_num ops (quantity orderItem))))
          a (map (orderItem_row oid) items) =
        foldl (\<lambda>total orderItem.
            js_add ops total (js_mul ops (unitPrice orderItem) (js_num ops (quantity orderItem))))
          a items" for a
    by (induction items arbitrary: a) (simp_all add: orderItem_row_def)
  then show ?thesis by (simp add: order_total_def)
qed

text \<open>In arithmetic without rounding the loop computes the sum of the products.\<close>

lemma order_total_exact:
  "order_total exact_ops ois = sum_list (map (\<lambda>oi. unitPrice oi * of_int (quantity oi)) ois)"
proof -
  have "foldl (\<lambda>total oi. total + unitPrice oi * of_int (quantity oi)) a ois =
      a + sum_list (map (\<lambda>oi. unitPrice oi * of_int (quantity oi)) ois)" for a :: rat
    by (induction ois arbitrary: a) (auto simp: algebra_simps)
  then show ?thesis by (simp add: order_total_def exact_ops_def)
qed

lemma run_ops_decrement_list:
  "run_ops (map (\<lambda>(pid, n). ProductDecrement pid n) ds) d = Inr (rs, d') \<Longrightarrow>
     d' = d\<lparr>product_tbl := fold (\<lambda>(pid, n). map (decrement_stock pid n)) ds (product_tbl d)\<rparr>"
proof (induction ds arbitrary: d rs)
  case Nil
  then show ?case by simp
next
  case (Cons a ds)
  obtain pid n where a: "a = (pid, n)" by (cases a)
  let ?d = "d\<lparr>product_tbl := map (decrement_stock pid n) (product_tbl d)\<rparr>"
  from Cons.prems a obtain rs' where
    "run_ops (map (\<lambda>(pid, n). ProductDecrement pid n) ds) ?d = Inr (rs', d')"
    by (auto simp: product_update_decrement_def split: if_splits sum.splits)
  from Cons.IH [OF this] a show ?case by simp
qed

lemma insufficient_stock_rejected:
  assumes "CreateOrder body"
    and "p \<in> set (product_tbl d)"
    and "product_id p \<in> set (map productId (orderItems body))"
    and "stock p < qty (orderItems body) (product_id p)"
  shows "placeOrder oid body d = (Inl (Error ''Insufficient Stock''), d)"
proof -
  from assms(2,3) have "p \<in> set (findMany_products (map productId (orderItems body)) d)"
    by (simp add: findMany_products_def)
  with assms(4) have
    "\<not> list_all (\<lambda>p. qty (orderItems body) (product_id p) \<le> stock p)
         (findMany_products (map productId (orderItems body)) d)"
    unfolding list_all_iff by (intro notI) force
  with assms(1) show ?thesis by (simp add: placeOrder_cases)
qed


text \<open>A request that takes its two steps with nothing in between is \<open>placeOrder\<close>.\<close>

lemma step_step_placeOrder:
  "(case step (new_task oid body) d of (t, d') \<Rightarrow>
      (case step t d' of (t', d'') \<Rightarrow> (task_state t', d''))) =
   (Done (fst (placeOrder oid body d)), snd (placeOrder oid body d))"
  by (simp add: step_def new_task_def placeOrder_def split: prod.splits)

lemmas schedule_defs =
  two_sixes_def new_task_def step_def succeeded_def insufficient_def stocks_def
  placeOrder_commit_def CreateOrder_def findMany_products_def getQuantity_def transaction_def
  order_create_def product_update_decrement_def decrement_stock_def

lemma serial_first:
  "(case run_schedule [First, First, Second, Second] two_sixes of
      (a, b, d) \<Rightarrow> succeeded a \<and> insufficient b \<and> map stock (product_tbl d) = [4])"
  by (simp add: schedule_defs example_defs)

lemma serial_second:
  "(case run_schedule [Second, Second, First, First] two_sixes of
      (a, b, d) \<Rightarrow> insufficient a \<and> succeeded b \<and> map stock (product_tbl d) = [4])"
  by (simp add: schedule_defs example_defs)

lemma interleaved:
  "ts \<in> {[First, Second, First, Second], [First, Second, Second, First],
          [Second, First, First, Second], [Second, First, Second, First]} \<Longrightarrow>
   (case run_schedule ts two_sixes of
      (a, b, d) \<Rightarrow> succeeded a \<and> succeeded b \<and> map stock (product_tbl d) = [-2])"
  by (auto simp: schedule_defs example_defs)

lemma two_steps_each:
  assumes "length (filter (\<lambda>t. t = First) ts) = 2"
    and "length (filter (\<lambda>t. t = Second) ts) = 2"
  shows "ts \<in> {[First, First, Second, Second], [Second, Second, First, First],
          [First, Second, First, Second], [First, Second, Second, First],
          [Second, First, First, Second], [Second, First, Second, First]}"
proof -
  have "(\<lambda>t. t \<noteq> First) = (\<lambda>t. t = Second)"
    by (rule ext) (metis turn.exhaust turn.distinct(1))
  with sum_length_filter_compl [of "\<lambda>t. t = First" ts] assms have "length ts = 4"
    by simp
  then obtain t1 t2 t3 t4 where ts: "ts = [t1, t2, t3, t4]"
    by (auto simp: length_Suc_conv numeral_eq_Suc)
  from assms show ?thesis unfolding ts
    by (cases t1; cases t2; cases t3; cases t4) simp_all
qed

lemma count_list_distinct:
  "distinct xs \<Longrightarrow> x \<in> set xs \<Longrightarrow> count_list xs x = 1"
  by (induction xs) auto

section \<open>Lemmas on the token\<close>

lemma byte_less: "byte c < 256"
  by (simp add: byte_def)

lemma char_of_byte: "char_of (byte c) = c"
  by (simp add: byte_def)

lemma dec6_enc6: "n < 64 \<Longrightarrow> dec6 (enc6 n) = Some n"
  by (auto simp: dec6_def enc6_def byte_def Let_def)

lemma dec6_pad: "dec6 CHR ''='' = None"
  by (simp add: dec6_def byte_def)

lemma hi_zero:
  fixes y :: nat
  assumes "y < 256"
  shows "y div 16 div 16 = 0" and "y div 64 div 4 = 0" and "y div 16 < 16" and "y div 64 < 4"
    and "y div 4 < 64"
  using assms by (simp_all add: div_mult2_eq [symmetric] less_mult_imp_div_less)

lemma sextets:
  fixes x y :: nat
  assumes "x < 256" "y < 256"
  shows "x div 4 < 64" and "x mod 4 * 16 + y div 16 < 64" and "x mod 16 * 4 + y div 64 < 64"
    and "x mod 64 < 64" and "x mod 4 * 16 < 64" and "x mod 16 * 4 < 64"
proof -
  have a: "x mod 4 < 4" "x mod 16 < 16" by simp_all
  from assms(1) show "x div 4 < 64" by (rule hi_zero(5))
  from a hi_zero(3) [OF assms(2)] show "x mod 4 * 16 + y div 16 < 64" by linarith
  from a hi_zero(4) [OF assms(2)] show "x mod 16 * 4 + y div 64 < 64" by linarith
  show "x mod 64 < 64" by simp
  from a show "x mod 4 * 16 < 64" by linarith
  from a show "x mod 16 * 4 < 64" by linarith
qed


lemma bytes_of_sextets_of_encode: "bytes_of (sextets_of (base64_encode bs)) = bs"
proof (induction bs rule: base64_encode.induct)
  case 1
  show ?case by simp
next
  case (2 a)
  show ?case
    by (simp add: dec6_enc6 dec6_pad sextets [OF byte_less byte_less]
        hi_zero [OF byte_less] char_of_byte)
next
  case (3 a b)
  show ?case
    by (simp add: dec6_enc6 dec6_pad sextets [OF byte_less byte_less]
        hi_zero [OF byte_less] char_of_byte)
next
  case (4 a b c bs)
  then show ?case
    by (simp add: dec6_enc6 sextets [OF byte_less byte_less]
        hi_zero [OF byte_less] char_of_byte)
qed

lemma decode_encode: "base64_decode (base64_encode bs) = bs"
  by (simp add: base64_decode_def bytes_of_sextets_of_encode)

lemma split_no_sep: "sep \<notin> set s \<Longrightarrow> split sep s = [s]"
  by (induction s) auto

lemma split_at_first: "sep \<notin> set a \<Longrightarrow> split sep (a @ sep # b) = a # split sep b"
  by (induction a) auto

lemma toString_ascii_id: "list_all (\<lambda>c. byte c < 128) s \<Longrightarrow> toString_ascii s = s"
  by (induction s) (auto simp: toString_ascii_def char_of_byte)


lemma find_distinct_key:
  "distinct (map f xs) \<Longrightarrow> x \<in> set xs \<Longrightarrow> find (\<lambda>y. f y = f x) xs = Some x"
  by (induction xs) (auto simp: rev_image_eqI)

lemma find_Some_set: "find P xs = Some x \<Longrightarrow> x \<in> set xs"
  by (induction xs) (auto split: if_splits)

lemma base64_encode_empty: "base64_encode bs = [] \<longleftrightarrow> bs = []"
  by (cases bs rule: base64_encode.cases) simp_all

text \<open>The token of a login that succeeds, and what decoding it gives.\<close>

lemma login_token_round_trip:
  assumes "login Login compare body d = Inr token"
  shows "\<exists>u. find (\<lambda>u. email u = login_email body) (user_tbl d) = Some u
     \<and> compare (login_password body) (password u)
     \<and> token = base64_encode (user_id u @ '':'' @ login_password body)
     \<and> base64_decode token = user_id u @ '':'' @ login_password body
     \<and> drop (length (user_id u) + 1) (base64_decode token) = login_password body"
proof -
  from assms obtain u where u: "find (\<lambda>u. email u = login_email body) (user_tbl d) = Some u"
    and c: "compare (login_password body) (password u)"
    and t: "token = base64_encode (user_id u @ '':'' @ login_password body)"
    by (auto simp: login_def split: if_splits option.splits)
  from t have "base64_decode token = user_id u @ '':'' @ login_password body"
    by (simp add: decode_encode)
  with u c t show ?thesis by auto
qed

text \<open>The middleware on the token of an id and a password of ASCII characters without a
  colon: the user with the id is looked up, and the request is authenticated exactly when
  the comparator accepts the password against the hash stored for that user.\<close>

lemma auth_on_issued_token:
  assumes "uid \<noteq> []" and "pw \<noteq> []"
    and "CHR '':'' \<notin> set uid" and "CHR '':'' \<notin> set pw"
    and "list_all (\<lambda>c. byte c < 128) (uid @ pw)"
  shows "auth compare (Some (base64_encode (uid @ '':'' @ pw))) d =
     (case find (\<lambda>u. user_id u = uid) (user_tbl d) of
        None \<Rightarrow> Inl (PrismaClientKnownRequestError ''P2025'')
      | Some u \<Rightarrow>
          if compare pw (password u) then Inr u
          else Inl (AuthError ''Invalid credentials in token''))"
proof -
  from assms(5) have "list_all (\<lambda>c. byte c < 128) (uid @ '':'' @ pw)"
    by (simp add: byte_def)
  then have "toString_ascii (uid @ '':'' @ pw) = uid @ '':'' @ pw"
    by (rule toString_ascii_id)
  with assms(3,4) have
    "split CHR '':'' (toString_ascii (base64_decode (base64_encode (uid @ '':'' @ pw)))) =
       [uid, pw]"
    by (simp add: decode_encode split_at_first split_no_sep)
  moreover from assms(1) have "base64_encode (uid @ '':'' @ pw) \<noteq> []"
    by (simp add: base64_encode_empty)
  ultimately show ?thesis using assms(1,2)
    by (simp add: auth_def verify_parts_def split: option.splits)
qed

section \<open>Claims\<close>

text \<open>
  C1. A request with two line items for the same product, quantities 2 and 3: the claim
  has it rejected at stock 4 and leaving stock 0 at stock 5. The handler reads the
  quantity of the first item with the id, for the check and for each of the two updates:
  at stock 4 the order is accepted and the stock becomes 0, at stock 5 it becomes 1.
\<close>

theorem C1_same_product_twice:
  "placeOrder ''O'' (request [item ''P'' 2 5, item ''P'' 3 5]) (db_P 4) =
     (Inr \<lparr>order_id = ''O'', order_userId = ''U'',
           included_orderItems =
             [orderItem_row ''O'' (item ''P'' 2 5), orderItem_row ''O'' (item ''P'' 3 5)],
           total = None\<rparr>,
      (db_P 0)\<lparr>order_tbl := [\<lparr>order_id = ''O'', order_userId = ''U''\<rparr>],
               orderItem_tbl :=
                 [orderItem_row ''O'' (item ''P'' 2 5), orderItem_row ''O'' (item ''P'' 3 5)]\<rparr>)
   \<and> map stock (product_tbl
        (snd (placeOrder ''O'' (request [item ''P'' 2 5, item ''P'' 3 5]) (db_P 5)))) = [1]"
  by (simp add: placeOrder_defs example_defs)


text \<open>
  C2. A request with a line item whose quantity exceeds the stock of its product is to
  fail with Insufficient Stock and leave the state as it was. Where the product also
  stands in an earlier line item, the check reads only that earlier quantity: with stock
  5 and lines of 2 and 10 the order is accepted, both rows are stored and the stock
  becomes 1.
\<close>

theorem C2_excess_in_second_line:
  "fst (placeOrder ''O'' (request [item ''P'' 2 5, item ''P'' 10 5]) (db_P 5)) =
     Inr (created_order ''O'' (request [item ''P'' 2 5, item ''P'' 10 5]))
   \<and> map quantity
       (orderItem_tbl (snd (placeOrder ''O'' (request [item ''P'' 2 5, item ''P'' 10 5]) (db_P 5))))
     = [2, 10]
   \<and> map stock
       (product_tbl (snd (placeOrder ''O'' (request [item ''P'' 2 5, item ''P'' 10 5]) (db_P 5))))
     = [1]"
  by (simp add: placeOrder_defs example_defs created_order_def)





text \<open>
  C4, as stated, fails in two ways. One request alone, with two lines of 2 for a product
  of stock 3, passes the check on the first line and decrements twice: the stock is -1.
  And two requests for 6 against a stock of 10 that both load the product before either
  commits are both accepted: the stock is -2.
\<close>

theorem C4_counterexample:
  "map stock
     (product_tbl (snd (placeOrder ''O'' (request [item ''P'' 2 5, item ''P'' 2 5]) (db_P 3)))) = [-1]
   \<and> stocks (run_schedule [First, Second, First, Second] two_sixes) = [-2]"
  by (simp add: placeOrder_def schedule_defs example_defs)

text \<open>
  C4, amended. A placement that runs from its load to its commit with no other request in
  between, for a request in which no product id stands in two lines, keeps every stock
  non-negative.
\<close>

theorem C4_stock_stays_non_negative:
  assumes "distinct (map productId (orderItems body))"
    and "list_all (\<lambda>p. 0 \<le> stock p) (product_tbl d)"
  shows "list_all (\<lambda>p. 0 \<le> stock p) (product_tbl (snd (placeOrder oid body d)))"
proof (cases "fst (placeOrder oid body d)")
  case (Inl e)
  then have "snd (placeOrder oid body d) = d"
    by (auto simp: placeOrder_cases split: if_splits)
  with assms(2) show ?thesis by simp
next
  case (Inr ob)
  let ?items = "orderItems body"
  let ?pids = "map productId ?items"
  from Inr have c: "snd (placeOrder oid body d) = committed oid body d"
    and ok: "list_all (\<lambda>p. qty ?items (product_id p) \<le> stock p) (findMany_products ?pids d)"
    by (auto simp: placeOrder_cases split: if_splits)
  have "0 \<le> stock p - int (count_list ?pids (product_id p)) * qty ?items (product_id p)"
    if p: "p \<in> set (product_tbl d)" for p
  proof (cases "product_id p \<in> set ?pids")
    case True
    with assms(1) have "count_list ?pids (product_id p) = 1"
      by (simp add: count_list_distinct)
    moreover from True p ok have "qty ?items (product_id p) \<le> stock p"
      by (simp add: list_all_iff findMany_products_def)
    ultimately show ?thesis by simp
  next
    case False
    then have "count_list ?pids (product_id p) = 0" by simp
    with assms(2) p show ?thesis by (simp add: list_all_iff)
  qed
  then show ?thesis
    by (simp add: c committed_def decrement_all_eq list_all_iff)
qed

theorem C4_stock_stays_non_negative_witness:
  "list_all (\<lambda>p. 0 \<le> stock p) (product_tbl (db_P 10))
   \<and> list_all (\<lambda>p. 0 \<le> stock p)
       (product_tbl (snd (placeOrder ''O'' (request [item ''P'' 10 5]) (db_P 10))))
   \<and> list_all (\<lambda>p. 0 \<le> stock p)
       (product_tbl (snd (placeOrder ''O'' (request [item ''P'' 11 5]) (db_P 10))))"
proof -
  have 1: "distinct (map productId (orderItems (request [item ''P'' 10 5])))"
    "distinct (map productId (orderItems (request [item ''P'' 11 5])))"
    by (simp_all add: example_defs)
  have 2: "list_all (\<lambda>p. 0 \<le> stock p) (product_tbl (db_P 10))"
    by (simp add: example_defs)
  from 2 C4_stock_stays_non_negative [OF 1(1) 2, of "''O''"]
    C4_stock_stays_non_negative [OF 1(2) 2, of "''O''"]
  show ?thesis by (intro conjI)
qed

text \<open>
  C5. The commit step is all or nothing. For the transaction that inserts the order with
  its items and then runs any list of stock decrements: when a statement fails (the insert,
  or a later decrement after the insert went through) the datastore is exactly as before;
  when all succeed the order row, one item row per line and every decrement are there
  together. For the handler as a whole: a placement that fails leaves the datastore
  unchanged, one that succeeds leaves the committed state.
\<close>

theorem C5_commit_all_or_nothing:
  "(case transaction
          (OrderCreate oid uid items # map (\<lambda>(pid, n). ProductDecrement pid n) ds) d of
      (Inl e, d') \<Rightarrow> d' = d
    | (Inr rs, d') \<Rightarrow>
        d' = d\<lparr>order_tbl := order_tbl d @ [\<lparr>order_id = oid, order_userId = uid\<rparr>],
               orderItem_tbl := orderItem_tbl d @ map (orderItem_row oid) items,
               product_tbl :=
                 fold (\<lambda>(pid, n). map (decrement_stock pid n)) ds (product_tbl d)\<rparr>
        \<and> length (orderItem_tbl d') = length (orderItem_tbl d) + length items)
   \<and> (case placeOrder oid body d of
        (Inl e, d') \<Rightarrow> d' = d
      | (Inr ob, d') \<Rightarrow> ob = created_order oid body \<and> d' = committed oid body d)"
proof -
  let ?qs = "map (\<lambda>(pid, n). ProductDecrement pid n) ds"
  have "case transaction (OrderCreate oid uid items # ?qs) d of
      (Inl e, d') \<Rightarrow> d' = d
    | (Inr rs, d') \<Rightarrow>
        d' = d\<lparr>order_tbl := order_tbl d @ [\<lparr>order_id = oid, order_userId = uid\<rparr>],
               orderItem_tbl := orderItem_tbl d @ map (orderItem_row oid) items,
               product_tbl :=
                 fold (\<lambda>(pid, n). map (decrement_stock pid n)) ds (product_tbl d)\<rparr>
        \<and> length (orderItem_tbl d') = length (orderItem_tbl d) + length items"
  proof (cases "run_ops (OrderCreate oid uid items # ?qs) d")
    case (Inl e)
    then show ?thesis by (simp add: transaction_def)
  next
    case (Inr res)
    obtain rs d' where res: "res = (rs, d')" by (cases res)
    let ?d = "d\<lparr>order_tbl := order_tbl d @ [\<lparr>order_id = oid, order_userId = uid\<rparr>],
               orderItem_tbl := orderItem_tbl d @ map (orderItem_row oid) items\<rparr>"
    from Inr res obtain rs' where "run_ops ?qs ?d = Inr (rs', d')"
      by (auto simp: order_create_def split: if_splits sum.splits)
    from run_ops_decrement_list [OF this] have "d' = ?d\<lparr>product_tbl :=
        fold (\<lambda>(pid, n). map (decrement_stock pid n)) ds (product_tbl ?d)\<rparr>" .
    with Inr res show ?thesis by (simp add: transaction_def)
  qed
  moreover have "case placeOrder oid body d of
      (Inl e, d') \<Rightarrow> d' = d
    | (Inr ob, d') \<Rightarrow> ob = created_order oid body \<and> d' = committed oid body d"
    by (simp add: placeOrder_cases)
  ultimately show ?thesis by (rule conjI)
qed

text \<open>The insert goes through and the decrement of a product that does not exist fails:
  nothing of the insert remains. With the decrement of the product that exists, both are
  there.\<close>

theorem C5_commit_all_or_nothing_witness:
  "fst (transaction [OrderCreate ''O'' ''U'' [item ''P'' 3 5], ProductDecrement ''Q'' 3] (db_P 10)) =
     Inl (PrismaClientKnownRequestError ''P2025'')
   \<and> snd (transaction [OrderCreate ''O'' ''U'' [item ''P'' 3 5], ProductDecrement ''Q'' 3] (db_P 10)) =
       db_P 10
   \<and> (\<exists>rs. fst (transaction [OrderCreate ''O'' ''U'' [item ''P'' 3 5], ProductDecrement ''P'' 3]
                  (db_P 10)) = Inr rs)
   \<and> snd (transaction [OrderCreate ''O'' ''U'' [item ''P'' 3 5], ProductDecrement ''P'' 3] (db_P 10)) =
       (db_P 10)\<lparr>order_tbl := order_tbl (db_P 10) @ [\<lparr>order_id = ''O'', order_userId = ''U''\<rparr>],
                 orderItem_tbl := orderItem_tbl (db_P 10) @ [orderItem_row ''O'' (item ''P'' 3 5)],
                 product_tbl := map (decrement_stock ''P'' 3) (product_tbl (db_P 10))\<rparr>"
proof -
  let ?bad = "transaction [OrderCreate ''O'' ''U'' [item ''P'' 3 5], ProductDecrement ''Q'' 3] (db_P 10)"
  let ?good = "transaction [OrderCreate ''O'' ''U'' [item ''P'' 3 5], ProductDecrement ''P'' 3] (db_P 10)"
  have 1: "fst ?bad = Inl (PrismaClientKnownRequestError ''P2025'')"
    by (simp add: transaction_def order_create_def product_update_decrement_def example_defs)
  have 2: "\<exists>rs. fst ?good = Inr rs"
    by (simp add: transaction_def order_create_def product_update_decrement_def example_defs)
  from 1 C5_commit_all_or_nothing
          [where oid = "''O''" and uid = "''U''" and items = "[item ''P'' 3 5]"
             and ds = "[(''Q'', 3)]" and d = "db_P 10"]
  have 3: "snd ?bad = db_P 10"
    by (cases ?bad) auto
  from 2 C5_commit_all_or_nothing
          [where oid = "''O''" and uid = "''U''" and items = "[item ''P'' 3 5]"
             and ds = "[(''P'', 3)]" and d = "db_P 10"]
  have 4: "snd ?good =
      (db_P 10)\<lparr>order_tbl := order_tbl (db_P 10) @ [\<lparr>order_id = ''O'', order_userId = ''U''\<rparr>],
                orderItem_tbl := orderItem_tbl (db_P 10) @ [orderItem_row ''O'' (item ''P'' 3 5)],
                product_tbl := map (decrement_stock ''P'' 3) (product_tbl (db_P 10))\<rparr>"
    by (cases ?good) auto
  from 1 2 3 4 show ?thesis by (intro conjI)
qed

text \<open>
  C6, as stated, fails on the example of the spec (stock 10, one line of 3 at 5.00): the
  order that \<^verbatim>\<open>POST /orders\<close> returns has no total, while the lines sum to 15.
\<close>

theorem C6_counterexample:
  "fst (placeOrder ''O'' (request [item ''P'' 3 5]) (db_P 10)) =
     Inr (created_order ''O'' (request [item ''P'' 3 5]))
   \<and> total (created_order ''O'' (request [item ''P'' 3 5])) = None
   \<and> order_total exact_ops [item ''P'' 3 5] = 15"
  by (simp add: placeOrder_defs example_defs created_order_def order_total_def exact_ops_def)

text \<open>
  C6, amended. The result of a placement that succeeds is the created order with its items,
  one per line, and without a total. The total is computed when an order is read through
  \<^verbatim>\<open>GET /orders/:id\<close>, where it is \<^verbatim>\<open>unitPrice * quantity\<close> of the included items added up,
  item by item from 0, in the arithmetic of the handler; the stored order row has an id
  and a user and no total. Reading the placed order back under its new id gives the
  returned order with the total added up in this way over the request's lines.
\<close>

theorem C6_total_on_read:
  "(fst (placeOrder oid body d) = Inr ob \<longrightarrow>
      total ob = None
      \<and> included_orderItems ob = map (orderItem_row oid) (orderItems body)
      \<and> order_tbl (snd (placeOrder oid body d)) =
          order_tbl d @ [\<lparr>order_id = oid, order_userId = userId body\<rparr>])
   \<and> (getOrder ops oid' d2 = Inr ob' \<longrightarrow>
        total ob' =
          Some (foldl (\<lambda>t i. js_add ops t (js_mul ops (unitPrice i) (js_num ops (quantity i))))
                  (js_num ops 0) (included_orderItems ob')))
   \<and> (fst (placeOrder oid body d) = Inr ob
        \<and> oid \<notin> set (map order_id (order_tbl d))
        \<and> oid \<notin> set (map orderId (orderItem_tbl d)) \<longrightarrow>
        getOrder ops oid (snd (placeOrder oid body d)) =
          Inr (ob\<lparr>total :=
                 Some (foldl (\<lambda>t i. js_add ops t
                                (js_mul ops (unitPrice i) (js_num ops (quantity i))))
                         (js_num ops 0) (orderItems body))\<rparr>))"
proof -
  have placed: "ob = created_order oid body \<and>
      snd (placeOrder oid body d) = committed oid body d"
    if "fst (placeOrder oid body d) = Inr ob"
    using that by (auto simp: placeOrder_cases split: if_splits)
  have 1: "total ob = None
      \<and> included_orderItems ob = map (orderItem_row oid) (orderItems body)
      \<and> order_tbl (snd (placeOrder oid body d)) =
          order_tbl d @ [\<lparr>order_id = oid, order_userId = userId body\<rparr>]"
    if "fst (placeOrder oid body d) = Inr ob"
    using placed [OF that] by (simp add: created_order_def committed_def)
  have 2: "total ob' =
      Some (foldl (\<lambda>t i. js_add ops t (js_mul ops (unitPrice i) (js_num ops (quantity i))))
              (js_num ops 0) (included_orderItems ob'))"
    if "getOrder ops oid' d2 = Inr ob'"
    using that by (auto simp: getOrder_def order_total_def split: option.splits)
  have 3: "getOrder ops oid (snd (placeOrder oid body d)) =
      Inr (ob\<lparr>total :=
             Some (foldl (\<lambda>t i. js_add ops t
                            (js_mul ops (unitPrice i) (js_num ops (quantity i))))
                     (js_num ops 0) (orderItems body))\<rparr>)"
    if a: "fst (placeOrder oid body d) = Inr ob
      \<and> oid \<notin> set (map order_id (order_tbl d))
      \<and> oid \<notin> set (map orderId (orderItem_tbl d))"
  proof -
    from a have f: "find (\<lambda>ord. order_id ord = oid) (order_tbl d) = None"
      by (auto simp: find_None_iff)
    from a have g: "filter (\<lambda>orderItem. orderId orderItem = oid) (orderItem_tbl d) = []"
      by (auto simp: filter_empty_conv)
    have h: "filter (\<lambda>orderItem. orderId orderItem = oid) (map (orderItem_row oid) xs) =
        map (orderItem_row oid) xs" for xs :: "'a orderItemInput list"
      by (induction xs) (auto simp: orderItem_row_def)
    have k: "find P (xs @ [x]) =
        (case find P xs of None \<Rightarrow> (if P x then Some x else None) | Some y \<Rightarrow> Some y)"
      for P :: "order \<Rightarrow> bool" and xs x
      by (induction xs) auto
    have t: "order_total ops (map (orderItem_row oid) (orderItems body)) =
        foldl (\<lambda>t i. js_add ops t (js_mul ops (unitPrice i) (js_num ops (quantity i))))
          (js_num ops 0) (orderItems body)"
      by (simp add: order_total_rows) (simp add: order_total_def)
    from a have "fst (placeOrder oid body d) = Inr ob" by simp
    from placed [OF this] show ?thesis
      by (simp add: getOrder_def committed_def created_order_def f g h k t)
  qed
  from 1 2 3 show ?thesis by blast
qed

theorem C6_total_on_read_witness:
  "fst (placeOrder ''O'' (request [item ''P'' 3 5]) (db_P 10)) =
     Inr (created_order ''O'' (request [item ''P'' 3 5]))
   \<and> getOrder exact_ops ''O'' (snd (placeOrder ''O'' (request [item ''P'' 3 5]) (db_P 10))) =
       Inr ((created_order ''O'' (request [item ''P'' 3 5]))\<lparr>total := Some 15\<rparr>)"
proof -
  have 1: "fst (placeOrder ''O'' (request [item ''P'' 3 5]) (db_P 10)) =
      Inr (created_order ''O'' (request [item ''P'' 3 5]))"
    by (simp add: placeOrder_defs example_defs created_order_def)
  have 2: "''O'' \<notin> set (map order_id (order_tbl (db_P 10)))"
    "''O'' \<notin> set (map orderId (orderItem_tbl (db_P 10)))"
    by (simp_all add: example_defs)
  from C6_total_on_read
         [where oid = "''O''" and body = "request [item ''P'' 3 5]" and d = "db_P 10"
            and ob = "created_order ''O'' (request [item ''P'' 3 5])"
            and ops = exact_ops and oid' = "''O''"
            and ?d2.0 = "snd (placeOrder ''O'' (request [item ''P'' 3 5]) (db_P 10))"
            and ob' = "(created_order ''O'' (request [item ''P'' 3 5]))\<lparr>total := Some 15\<rparr>"]
       1 2
  show ?thesis by (simp add: example_defs exact_ops_def)
qed

text \<open>
  C7, as stated, fails for a request that names a product with no row: the stock check
  runs over the loaded rows only and passes, the insert of the order violates the foreign
  key of the item, and \<^verbatim>\<open>asyncHandler\<close> hands that error to \<^verbatim>\<open>next\<close>; the answer is
  neither the 400 of a validation error nor the 404 of a missing record.
\<close>

theorem C7_counterexample:
  "placeOrder ''O'' (request [item ''Q'' 1 5]) (db_P 10) =
     (Inl (PrismaClientKnownRequestError ''P2003''), db_P 10)
   \<and> isSufficientStock [item ''Q'' 1 5] (findMany_products [''Q''] (db_P 10)) = Inr True
   \<and> asyncHandler (PrismaClientKnownRequestError ''P2003'') =
       Next (PrismaClientKnownRequestError ''P2003'')"
  by (simp add: placeOrder_defs example_defs)

text \<open>
  C7, amended. The stock check looks each loaded product up among the request's lines; a
  line whose product has no row is not seen by it. A request that passes the struct check
  and has such a line always fails and leaves the datastore unchanged: with Insufficient
  Stock when a loaded product fails the stock check, and otherwise with the foreign key
  error P2003 of the order insert. \<^verbatim>\<open>asyncHandler\<close> hands either error to \<^verbatim>\<open>next\<close>.
\<close>

theorem C7_unknown_product:
  assumes "CreateOrder body"
    and "\<exists>i \<in> set (orderItems body). productId i \<notin> set (map product_id (product_tbl d))"
  shows "snd (placeOrder oid body d) = d
     \<and> isSufficientStock (orderItems body)
          (findMany_products (map productId (orderItems body)) d) =
         Inr (list_all (\<lambda>p. qty (orderItems body) (product_id p) \<le> stock p)
                (findMany_products (map productId (orderItems body)) d))
     \<and> fst (placeOrder oid body d) =
         (if list_all (\<lambda>p. qty (orderItems body) (product_id p) \<le> stock p)
               (findMany_products (map productId (orderItems body)) d)
          then Inl (PrismaClientKnownRequestError ''P2003'')
          else Inl (Error ''Insufficient Stock''))
     \<and> (\<exists>e. fst (placeOrder oid body d) = Inl e \<and> asyncHandler e = Next e)"
proof -
  from assms(2) have "\<not> references_ok body d"
    by (auto simp: references_ok_def list_all_iff)
  with assms(1) show ?thesis
    by (simp add: placeOrder_cases isSufficientStock_requested [OF findMany_products_ids])
qed

theorem C7_unknown_product_witness:
  "placeOrder ''O'' (request [item ''P'' 3 5, item ''Q'' 1 5]) (db_P 10) =
     (Inl (PrismaClientKnownRequestError ''P2003''), db_P 10)
   \<and> placeOrder ''O'' (request [item ''P'' 11 5, item ''Q'' 1 5]) (db_P 10) =
     (Inl (Error ''Insufficient Stock''), db_P 10)"
proof -
  have 1: "CreateOrder (request [item ''P'' 3 5, item ''Q'' 1 5])"
    "CreateOrder (request [item ''P'' 11 5, item ''Q'' 1 5])"
    by (simp_all add: CreateOrder_def example_defs)
  have 2: "\<exists>i \<in> set (orderItems (request [item ''P'' 3 5, item ''Q'' 1 5])).
      productId i \<notin> set (map product_id (product_tbl (db_P 10)))"
    "\<exists>i \<in> set (orderItems (request [item ''P'' 11 5, item ''Q'' 1 5])).
      productId i \<notin> set (map product_id (product_tbl (db_P 10)))"
    by (simp_all add: example_defs)
  from C7_unknown_product [OF 1(1) 2(1), of "''O''"]
       C7_unknown_product [OF 1(2) 2(2), of "''O''"]
  show ?thesis
    by (auto simp: prod_eq_iff example_defs findMany_products_def qty_def)
qed

text \<open>
  C8, as stated, fails: when each of the two requests for 6 loads the product (stock 10)
  before the other commits, both pass the check on the stock they loaded, both commit, and
  the stock is -2.
\<close>

theorem C8_counterexample:
  "(case run_schedule [First, Second, First, Second] two_sixes of
      (a, b, d) \<Rightarrow> succeeded a \<and> succeeded b \<and> map stock (product_tbl d) = [-2])"
  by (simp add: schedule_defs example_defs)

text \<open>
  C8, amended. Two requests, each for 6 of a product of stock 10, each taking its two
  steps (load, then check and commit) in any interleaving: when one request is done before
  the other loads, it succeeds, the other fails with Insufficient Stock, and the stock is
  4; in every other interleaving both succeed and the stock is -2.
\<close>

theorem C8_two_requests:
  assumes "length (filter (\<lambda>t. t = First) ts) = 2"
    and "length (filter (\<lambda>t. t = Second) ts) = 2"
  shows "(case run_schedule ts two_sixes of
      (a, b, d) \<Rightarrow>
        if ts = [First, First, Second, Second]
        then succeeded a \<and> insufficient b \<and> map stock (product_tbl d) = [4]
        else if ts = [Second, Second, First, First]
        then insufficient a \<and> succeeded b \<and> map stock (product_tbl d) = [4]
        else succeeded a \<and> succeeded b \<and> map stock (product_tbl d) = [-2])"
proof -
  from two_steps_each [OF assms] consider
      "ts = [First, First, Second, Second]" | "ts = [Second, Second, First, First]"
    | "ts \<in> {[First, Second, First, Second], [First, Second, Second, First],
             [Second, First, First, Second], [Second, First, Second, First]}"
    by auto
  then show ?thesis
  proof cases
    case 1
    with serial_first show ?thesis by (simp split: prod.splits)
  next
    case 2
    with serial_second show ?thesis by (simp split: prod.splits)
  next
    case 3
    then have "ts \<noteq> [First, First, Second, Second]" "ts \<noteq> [Second, Second, First, First]"
      by auto
    with interleaved [OF 3] show ?thesis by (simp split: prod.splits)
  qed
qed

theorem C8_two_requests_witness:
  "stocks (run_schedule [First, First, Second, Second] two_sixes) = [4]
   \<and> stocks (run_schedule [Second, First, Second, First] two_sixes) = [-2]"
proof -
  have 1: "length (filter (\<lambda>t. t = First) [First, First, Second, Second]) = 2"
    "length (filter (\<lambda>t. t = Second) [First, First, Second, Second]) = 2"
    "length (filter (\<lambda>t. t = First) [Second, First, Second, First]) = 2"
    "length (filter (\<lambda>t. t = Second) [Second, First, Second, First]) = 2"
    by simp_all
  from C8_two_requests [OF 1(1,2)] C8_two_requests [OF 1(3,4)]
  show ?thesis by (simp add: stocks_def split: prod.splits)
qed


text \<open>
  C9. A product that an OrderItem row references is not deleted: the delete fails and the
  datastore, with the product and the rows that reference it, is unchanged.
\<close>

theorem C9_referenced_product_not_deleted:
  assumes "pid \<in> set (map productId (orderItem_tbl d))"
  shows "(\<exists>e. fst (deleteProduct pid d) = Inl e) \<and> snd (deleteProduct pid d) = d"
  using assms by (simp add: deleteProduct_def)

theorem C9_referenced_product_not_deleted_witness:
  "''P'' \<in> set (map productId (orderItem_tbl (committed ''O'' (request [item ''P'' 3 5]) (db_P 10))))
   \<and> fst (deleteProduct ''P'' (committed ''O'' (request [item ''P'' 3 5]) (db_P 10))) =
       Inl (PrismaClientKnownRequestError ''P2003'')
   \<and> snd (deleteProduct ''P'' (committed ''O'' (request [item ''P'' 3 5]) (db_P 10))) =
       committed ''O'' (request [item ''P'' 3 5]) (db_P 10)"
proof -
  have 1: "''P'' \<in> set (map productId
      (orderItem_tbl (committed ''O'' (request [item ''P'' 3 5]) (db_P 10))))"
    by (simp add: committed_def example_defs orderItem_row_def)
  have 2: "fst (deleteProduct ''P'' (committed ''O'' (request [item ''P'' 3 5]) (db_P 10))) =
      Inl (PrismaClientKnownRequestError ''P2003'')"
    by (simp add: deleteProduct_def committed_def example_defs orderItem_row_def)
  from C9_referenced_product_not_deleted [OF 1] have
    3: "snd (deleteProduct ''P'' (committed ''O'' (request [item ''P'' 3 5]) (db_P 10))) =
      committed ''O'' (request [item ''P'' 3 5]) (db_P 10)" ..
  from 1 2 3 show ?thesis by (intro conjI)
qed


text \<open>
  C10. The token of a login is the base64 encoding of the user's id, a colon and the
  password, and decoding gives that string back; the middleware is to verify the password
  it recovers from the token. With the password \<^verbatim>\<open>p:q\<close> the login succeeds and the token
  decodes to \<^verbatim>\<open>u1:p:q\<close>, but the split at the colons gives three parts, the middleware
  verifies \<^verbatim>\<open>p\<close> against the stored hash, and the token is rejected. With a password of a
  character outside ASCII the login succeeds as well, \<^verbatim>\<open>toString("ascii")\<close> clears the
  highest bit of its two bytes, and the token is rejected too.
\<close>

theorem C10_password_not_recovered:
  "login (\<lambda>b. True) compare_1 \<lparr>login_email = ''a@b.c'', login_password = ''p:q''\<rparr> db_2 =
     Inr ''dTE6cDpx''
   \<and> base64_decode ''dTE6cDpx'' = ''u1:p:q''
   \<and> split CHR '':'' (toString_ascii (base64_decode ''dTE6cDpx'')) = [''u1'', ''p'', ''q'']
   \<and> auth compare_1 (Some ''dTE6cDpx'') db_2 = Inl (AuthError ''Invalid credentials in token'')
   \<and> login (\<lambda>b. True) compare_1
        \<lparr>login_email = ''a@b.c'', login_password = [CHR 0xC3, CHR 0xA9]\<rparr> db_3 =
      Inr ''dTE6w6k=''
   \<and> base64_decode ''dTE6w6k='' = ''u1:'' @ [CHR 0xC3, CHR 0xA9]
   \<and> split CHR '':'' (toString_ascii (base64_decode ''dTE6w6k='')) = [''u1'', ''C)'']
   \<and> auth compare_1 (Some ''dTE6w6k='') db_3 = Inl (AuthError ''Invalid credentials in token'')"
  by (simp add: login_def auth_def verify_parts_def db_2_def db_3_def compare_1_def
      base64_decode_def toString_ascii_def enc6_def dec6_def byte_def char_of_def bit_0)

text \<open>With the password \<^verbatim>\<open>secret\<close> the same user is authenticated by the token of the
  login, and not once the stored hash has changed.\<close>

lemma login_then_auth:
  "login (\<lambda>b. True) compare_1 \<lparr>login_email = ''a@b.c'', login_password = ''secret''\<rparr> db_1 =
     Inr (base64_encode (''u1'' @ '':'' @ ''secret''))
   \<and> auth compare_1 (Some (base64_encode (''u1'' @ '':'' @ ''secret''))) db_1 = Inr user_1
   \<and> auth compare_1 (Some (base64_encode (''u1'' @ '':'' @ ''secret''))) db_2 =
       Inl (AuthError ''Invalid credentials in token'')"
proof -
  have "list_all (\<lambda>c. byte c < 128) (''u1'' @ ''secret'')"
    by (simp add: byte_def)
  then have "auth compare_1 (Some (base64_encode (''u1'' @ '':'' @ ''secret''))) d =
     (case find (\<lambda>u. user_id u = ''u1'') (user_tbl d) of
        None \<Rightarrow> Inl (PrismaClientKnownRequestError ''P2025'')
      | Some u \<Rightarrow>
          if compare_1 ''secret'' (password u) then Inr u
          else Inl (AuthError ''Invalid credentials in token''))" for d :: "rat db"
    by (intro auth_on_issued_token) simp_all
  then show ?thesis
    by (simp add: login_def db_1_def db_2_def user_1_def user_U_def compare_1_def
        del: base64_encode.simps)
qed

end
